theory Spec2Isabelle
  imports Main "HOL-Library.Sublist"
begin

section \<open>In-place intersection of sorted C++ containers\<close>

text \<open>
  The repository holds two translation units.  \<^verbatim>\<open>intersection_update.cc\<close> intersects
  two \<^verbatim>\<open>std::set\<close>s; \<^verbatim>\<open>intersection_update2.cc\<close> is the template version for
  lists, vectors, sets and multisets, with an overload for a \<^verbatim>\<open>std::vector\<close> output.
  Each function receives \<^verbatim>\<open>ac\<close> by const reference and \<^verbatim>\<open>bc\<close> by pointer, and
  removes elements from \<^verbatim>\<open>bc\<close>.

  A call is modelled as a function from the two containers to either an error or the
  pair of containers after the call.  The two containers are distinct objects, except
  in the model of the call that passes one set for both parameters.  Iterators are positions (natural numbers); what
  such a position means after an erasure depends on the container, so there are two
  embeddings of \<^verbatim>\<open>bc\<close>: node-based containers, whose nodes keep their place, and
  vectors, whose elements move.  Using an iterator where C++ leaves the behaviour
  undefined is the error \<open>OutOfRange\<close>.
\<close>

datatype error = OutOfRange

subsection \<open>The read-only container \<^verbatim>\<open>ac\<close>\<close>

text \<open>
  \<^verbatim>\<open>ac\<close> is the list of its elements in traversal order; \<^verbatim>\<open>ac.begin()\<close> is position
  \<open>0\<close>, \<^verbatim>\<open>ac.end()\<close> is position \<open>length ac\<close>, and \<^verbatim>\<open>++a\<close> is \<open>Suc a\<close>.
\<close>

definition in_begin :: "'a list \<Rightarrow> nat" where
  "in_begin ac = 0"

definition in_end :: "'a list \<Rightarrow> nat" where
  "in_end ac = length ac"

definition in_deref :: "'a list \<Rightarrow> nat \<Rightarrow> error + 'a" where
  "in_deref ac a = (if a < length ac then Inr (ac ! a) else Inl OutOfRange)"

text \<open>
  \<^verbatim>\<open>ac.find(x)\<close>: the position of an element equal to \<open>x\<close>, or \<^verbatim>\<open>ac.end()\<close> when
  there is none.
\<close>

fun in_find :: "'a list \<Rightarrow> 'a \<Rightarrow> nat" where
  "in_find [] x = 0"
| "in_find (y # ys) x = (if y = x then 0 else Suc (in_find ys x))"

subsection \<open>Node-based \<^verbatim>\<open>bc\<close>: \<^verbatim>\<open>std::set\<close>, \<^verbatim>\<open>std::multiset\<close>, \<^verbatim>\<open>std::list\<close>\<close>

text \<open>
  The nodes of the container are numbered in traversal order when the call starts.
  Node \<open>i\<close> holds \<open>Some v\<close> while it is linked and \<open>None\<close> once it has been erased;
  an iterator is the number of its node, and \<^verbatim>\<open>end()\<close> is the number after the last
  node.  Erasing a node changes no other node and no iterator, as the standard
  guarantees for these containers.  Incrementing an iterator moves to the next
  linked node.
\<close>

type_synonym 'a nodes = "'a option list"

definition nodes_of :: "'a list \<Rightarrow> 'a nodes" where
  "nodes_of xs = map Some xs"

definition contents :: "'a nodes \<Rightarrow> 'a list" where
  "contents c = concat (map (\<lambda>n. case n of None \<Rightarrow> [] | Some v \<Rightarrow> [v]) c)"

function skip_erased :: "'a nodes \<Rightarrow> nat \<Rightarrow> nat" where
  "skip_erased c i = (if i < length c \<and> c ! i = None then skip_erased c (Suc i) else i)"
  by pat_completeness auto
termination
  by (relation "measure (\<lambda>(c, i). length c - i)") auto

declare skip_erased.simps [simp del]

definition node_begin :: "'a nodes \<Rightarrow> nat" where
  "node_begin c = skip_erased c 0"

definition node_end :: "'a nodes \<Rightarrow> nat" where
  "node_end c = length c"

definition node_next :: "'a nodes \<Rightarrow> nat \<Rightarrow> nat" where
  "node_next c b = skip_erased c (Suc b)"

definition node_deref :: "'a nodes \<Rightarrow> nat \<Rightarrow> error + 'a" where
  "node_deref c b =
     (if b < length c then (case c ! b of None \<Rightarrow> Inl OutOfRange | Some v \<Rightarrow> Inr v)
      else Inl OutOfRange)"

definition node_erase :: "'a nodes \<Rightarrow> nat \<Rightarrow> error + 'a nodes" where
  "node_erase c b =
     (if b < length c \<and> c ! b \<noteq> None then Inr (c[b := None]) else Inl OutOfRange)"

definition node_erase_range :: "'a nodes \<Rightarrow> nat \<Rightarrow> nat \<Rightarrow> error + 'a nodes" where
  "node_erase_range c b e =
     (if b \<le> e \<and> e \<le> length c then Inr (take b c @ replicate (e - b) None @ drop e c)
      else Inl OutOfRange)"

subsection \<open>Vector \<^verbatim>\<open>bc\<close>\<close>

text \<open>
  A vector is the list of its elements and an iterator is an index into the storage.
  \<^verbatim>\<open>erase\<close> moves the later elements one place down and shortens the vector, while
  an iterator held by the caller keeps its index.  Reading or erasing at an index that
  is not below the current size is \<open>OutOfRange\<close>.
\<close>

definition vec_begin :: "'a list \<Rightarrow> nat" where
  "vec_begin c = 0"

definition vec_end :: "'a list \<Rightarrow> nat" where
  "vec_end c = length c"

definition vec_deref :: "'a list \<Rightarrow> nat \<Rightarrow> error + 'a" where
  "vec_deref c b = (if b < length c then Inr (c ! b) else Inl OutOfRange)"

definition vec_erase :: "'a list \<Rightarrow> nat \<Rightarrow> error + 'a list" where
  "vec_erase c b = (if b < length c then Inr (take b c @ drop (Suc b) c) else Inl OutOfRange)"

definition vec_erase_range :: "'a list \<Rightarrow> nat \<Rightarrow> nat \<Rightarrow> error + 'a list" where
  "vec_erase_range c b e =
     (if b \<le> e \<and> e \<le> length c then Inr (take b c @ drop e c) else Inl OutOfRange)"

definition vec_iter_swap :: "'a list \<Rightarrow> nat \<Rightarrow> nat \<Rightarrow> error + 'a list" where
  "vec_iter_swap c i j =
     (if i < length c \<and> j < length c then Inr (c[i := c ! j, j := c ! i])
      else Inl OutOfRange)"

text \<open>\<^verbatim>\<open>--b_high\<close>: there is no position before \<^verbatim>\<open>begin()\<close>.\<close>

definition vec_prev :: "nat \<Rightarrow> error + nat" where
  "vec_prev b = (if b = 0 then Inl OutOfRange else Inr (b - 1))"

subsection \<open>\<^verbatim>\<open>intersection_update.cc\<close>: the merge variant for two sets\<close>

text \<open>
  The body of the \<^verbatim>\<open>while\<close> loop, on the container and the two cursors.
  In the equal case both cursors advance.
\<close>

definition IntersectionUpdate_set_body ::
  "('a::linorder) list \<Rightarrow> 'a nodes \<Rightarrow> nat \<Rightarrow> nat \<Rightarrow> error + ('a nodes \<times> nat \<times> nat)" where
  "IntersectionUpdate_set_body ac c a b =
     (case in_deref ac a of Inl e \<Rightarrow> Inl e | Inr va \<Rightarrow>
     (case node_deref c b of Inl e \<Rightarrow> Inl e | Inr vb \<Rightarrow>
        if va < vb then Inr (c, Suc a, b)
        else if va > vb then
          (let b_old = b; b' = node_next c b in
           (case node_erase c b_old of Inl e \<Rightarrow> Inl e | Inr c' \<Rightarrow> Inr (c', a, b')))
        else Inr (c, Suc a, node_next c b)))"

lemma skip_erased_ge: "i \<le> skip_erased c i"
proof (induction c i rule: skip_erased.induct)
  case (1 c i)
  show ?case
  proof (cases "i < length c \<and> c ! i = None")
    case True
    then have "skip_erased c i = skip_erased c (Suc i)"
      by (subst skip_erased.simps) simp
    moreover have "Suc i \<le> skip_erased c (Suc i)"
      using True by (rule "1.IH")
    ultimately show ?thesis by simp
  next
    case False
    then have "skip_erased c i = i"
      by (subst skip_erased.simps) auto
    then show ?thesis by simp
  qed
qed

lemma skip_erased_le: "i \<le> length c \<Longrightarrow> skip_erased c i \<le> length c"
proof (induction c i rule: skip_erased.induct)
  case (1 c i)
  show ?case
  proof (cases "i < length c \<and> c ! i = None")
    case True
    then have "skip_erased c i = skip_erased c (Suc i)"
      by (subst skip_erased.simps) simp
    moreover have "skip_erased c (Suc i) \<le> length c"
      using True by (intro "1.IH") auto
    ultimately show ?thesis by simp
  next
    case False
    then have "skip_erased c i = i"
      by (subst skip_erased.simps) auto
    with "1.prems" show ?thesis by simp
  qed
qed

lemma node_next_gt: "b < node_next c b"
  using skip_erased_ge [of "Suc b" c] by (simp add: node_next_def)

lemma node_deref_Inr_less: "node_deref c b = Inr v \<Longrightarrow> b < length c"
  by (simp add: node_deref_def split: if_splits)

lemma in_deref_Inr_less: "in_deref ac a = Inr v \<Longrightarrow> a < length ac"
  by (simp add: in_deref_def split: if_splits)

lemma node_erase_length: "node_erase c b = Inr c' \<Longrightarrow> length c' = length c"
  by (auto simp: node_erase_def split: if_splits)

lemma IntersectionUpdate_set_body_decreases:
  assumes "IntersectionUpdate_set_body ac c a b = Inr (c', a', b')"
  shows "(length ac - a') + (length c' - b') < (length ac - a) + (length c - b)"
proof -
  from assms obtain va vb where va: "in_deref ac a = Inr va" and vb: "node_deref c b = Inr vb"
    by (auto simp: IntersectionUpdate_set_body_def split: sum.splits)
  have la: "a < length ac" using va by (rule in_deref_Inr_less)
  have lb: "b < length c" using vb by (rule node_deref_Inr_less)
  have nb: "b < node_next c b" by (rule node_next_gt)
  from assms va vb la lb nb show ?thesis
    by (auto simp: IntersectionUpdate_set_body_def Let_def
        split: sum.splits if_splits dest!: node_erase_length)
qed

function IntersectionUpdate_set_loop ::
  "('a::linorder) list \<Rightarrow> nat \<Rightarrow> nat \<Rightarrow> nat \<Rightarrow> 'a nodes \<Rightarrow> nat \<Rightarrow> error + ('a list \<times> 'a nodes \<times> nat)"
  where
  "IntersectionUpdate_set_loop ac a_end b_end a c b =
     (if a \<noteq> a_end \<and> b \<noteq> b_end then
        (case IntersectionUpdate_set_body ac c a b of
           Inl e \<Rightarrow> Inl e
         | Inr (c', a', b') \<Rightarrow> IntersectionUpdate_set_loop ac a_end b_end a' c' b')
      else Inr (ac, c, b))"
  by pat_completeness auto
termination
  by (relation "measure (\<lambda>(ac, a_end, b_end, a, c, b). (length ac - a) + (length c - b))")
    (auto dest: IntersectionUpdate_set_body_decreases)

declare IntersectionUpdate_set_loop.simps [simp del]

text \<open>
  The whole function.  \<^verbatim>\<open>a_end\<close> is initialised from \<^verbatim>\<open>ac.begin()\<close>, as the source
  has it.  After the loop the range from \<^verbatim>\<open>b\<close> to \<^verbatim>\<open>b_end\<close> is erased.
\<close>

definition IntersectionUpdate_set ::
  "('a::linorder) list \<Rightarrow> 'a list \<Rightarrow> error + ('a list \<times> 'a list)" where
  "IntersectionUpdate_set ac bc =
     (let c = nodes_of bc;
          a = in_begin ac;
          a_end = in_begin ac;
          b = node_begin c;
          b_end = node_end c
      in case IntersectionUpdate_set_loop ac a_end b_end a c b of
           Inl e \<Rightarrow> Inl e
         | Inr (ac', c', b') \<Rightarrow>
             (case node_erase_range c' b' b_end of
                Inl e \<Rightarrow> Inl e
              | Inr c'' \<Rightarrow> Inr (ac', contents c'')))"

subsection \<open>\<^verbatim>\<open>intersection_update.cc\<close>: the merge variant called on one set\<close>

text \<open>
  \<^verbatim>\<open>IntersectionUpdate_set\<close> above is the call on two distinct objects.  Both parameters
  have the same type when \<^verbatim>\<open>Input\<close> and \<^verbatim>\<open>Output\<close> agree, so the function also
  accepts \<^verbatim>\<open>IntersectionUpdate(s, &s)\<close>.  Then \<^verbatim>\<open>ac\<close> and \<^verbatim>\<open>*bc\<close> are one container:
  \<^verbatim>\<open>a\<close> and \<^verbatim>\<open>b\<close> are iterators into the same nodes, and an erasure through
  \<^verbatim>\<open>bc\<close> is an erasure from \<^verbatim>\<open>ac\<close>.  The statements are those of the function; every
  read and every erasure goes to the one node store \<open>s\<close>.
\<close>

definition IntersectionUpdate_set_alias_body ::
  "('a::linorder) nodes \<Rightarrow> nat \<Rightarrow> nat \<Rightarrow> error + ('a nodes \<times> nat \<times> nat)" where
  "IntersectionUpdate_set_alias_body s a b =
     (case node_deref s a of Inl e \<Rightarrow> Inl e | Inr va \<Rightarrow>
     (case node_deref s b of Inl e \<Rightarrow> Inl e | Inr vb \<Rightarrow>
        if va < vb then Inr (s, node_next s a, b)
        else if va > vb then
          (let b_old = b; b' = node_next s b in
           (case node_erase s b_old of Inl e \<Rightarrow> Inl e | Inr s' \<Rightarrow> Inr (s', a, b')))
        else Inr (s, node_next s a, node_next s b)))"

lemma IntersectionUpdate_set_alias_body_decreases:
  assumes "IntersectionUpdate_set_alias_body s a b = Inr (s', a', b')"
  shows "(length s' - a') + (length s' - b') < (length s - a) + (length s - b)"
proof -
  from assms obtain va vb where va: "node_deref s a = Inr va" and vb: "node_deref s b = Inr vb"
    by (auto simp: IntersectionUpdate_set_alias_body_def split: sum.splits)
  have la: "a < length s" using va by (rule node_deref_Inr_less)
  have lb: "b < length s" using vb by (rule node_deref_Inr_less)
  have na: "a < node_next s a" by (rule node_next_gt)
  have nb: "b < node_next s b" by (rule node_next_gt)
  from assms va vb la lb na nb show ?thesis
    by (auto simp: IntersectionUpdate_set_alias_body_def Let_def
        split: sum.splits if_splits dest!: node_erase_length)
qed

function IntersectionUpdate_set_alias_loop ::
  "nat \<Rightarrow> nat \<Rightarrow> ('a::linorder) nodes \<Rightarrow> nat \<Rightarrow> nat \<Rightarrow> error + ('a nodes \<times> nat)" where
  "IntersectionUpdate_set_alias_loop a_end b_end s a b =
     (if a \<noteq> a_end \<and> b \<noteq> b_end then
        (case IntersectionUpdate_set_alias_body s a b of
           Inl e \<Rightarrow> Inl e
         | Inr (s', a', b') \<Rightarrow> IntersectionUpdate_set_alias_loop a_end b_end s' a' b')
      else Inr (s, b))"
  by pat_completeness auto
termination
  by (relation "measure (\<lambda>(a_end, b_end, s, a, b). (length s - a) + (length s - b))")
    (auto dest: IntersectionUpdate_set_alias_body_decreases)

declare IntersectionUpdate_set_alias_loop.simps [simp del]

text \<open>
  The call returns the contents of the one container twice: as what \<^verbatim>\<open>ac\<close> holds
  after the call and as what \<^verbatim>\<open>*bc\<close> holds.
\<close>

definition IntersectionUpdate_set_alias ::
  "('a::linorder) list \<Rightarrow> error + ('a list \<times> 'a list)" where
  "IntersectionUpdate_set_alias xs =
     (let s = nodes_of xs;
          a = node_begin s;
          a_end = node_begin s;
          b = node_begin s;
          b_end = node_end s
      in case IntersectionUpdate_set_alias_loop a_end b_end s a b of
           Inl e \<Rightarrow> Inl e
         | Inr (s', b') \<Rightarrow>
             (case node_erase_range s' b' b_end of
                Inl e \<Rightarrow> Inl e
              | Inr s'' \<Rightarrow> Inr (contents s'', contents s'')))"

subsection \<open>\<^verbatim>\<open>intersection_update2.cc\<close>: the probe variant, node-based \<^verbatim>\<open>bc\<close>\<close>

text \<open>
  The body of the \<^verbatim>\<open>for\<close> loop of \<^verbatim>\<open>IntersectionUpdateLargeAc\<close>: look the current
  element up in \<^verbatim>\<open>ac\<close>; when it is missing, step \<^verbatim>\<open>b\<close> forward and erase the node
  it was on.
\<close>

definition IntersectionUpdateLargeAc_body ::
  "'a list \<Rightarrow> nat \<Rightarrow> 'a nodes \<Rightarrow> nat \<Rightarrow> error + ('a nodes \<times> nat)" where
  "IntersectionUpdateLargeAc_body ac a_end c b =
     (case node_deref c b of Inl e \<Rightarrow> Inl e | Inr vb \<Rightarrow>
        if in_find ac vb = a_end then
          (let b_old = b; b' = node_next c b in
           (case node_erase c b_old of Inl e \<Rightarrow> Inl e | Inr c' \<Rightarrow> Inr (c', b')))
        else Inr (c, node_next c b))"

lemma IntersectionUpdateLargeAc_body_decreases:
  assumes "IntersectionUpdateLargeAc_body ac a_end c b = Inr (c', b')"
  shows "length c' - b' < length c - b"
proof -
  from assms obtain vb where vb: "node_deref c b = Inr vb"
    by (auto simp: IntersectionUpdateLargeAc_body_def split: sum.splits)
  have lb: "b < length c" using vb by (rule node_deref_Inr_less)
  have nb: "b < node_next c b" by (rule node_next_gt)
  from assms vb lb nb show ?thesis
    by (auto simp: IntersectionUpdateLargeAc_body_def Let_def
        split: sum.splits if_splits dest!: node_erase_length)
qed

text \<open>The loop; \<^verbatim>\<open>a_end\<close> and \<^verbatim>\<open>b_end\<close> are read once, before it.\<close>

function IntersectionUpdateLargeAc_loop ::
  "'a list \<Rightarrow> nat \<Rightarrow> nat \<Rightarrow> 'a nodes \<Rightarrow> nat \<Rightarrow> error + ('a list \<times> 'a nodes)" where
  "IntersectionUpdateLargeAc_loop ac a_end b_end c b =
     (if b \<noteq> b_end then
        (case IntersectionUpdateLargeAc_body ac a_end c b of
           Inl e \<Rightarrow> Inl e
         | Inr (c', b') \<Rightarrow> IntersectionUpdateLargeAc_loop ac a_end b_end c' b')
      else Inr (ac, c))"
  by pat_completeness auto
termination
  by (relation "measure (\<lambda>(ac, a_end, b_end, c, b). length c - b)")
    (auto dest: IntersectionUpdateLargeAc_body_decreases)

declare IntersectionUpdateLargeAc_loop.simps [simp del]

definition IntersectionUpdateLargeAc :: "'a list \<Rightarrow> 'a list \<Rightarrow> error + ('a list \<times> 'a list)" where
  "IntersectionUpdateLargeAc ac bc =
     (let c = nodes_of bc;
          a_end = in_end ac;
          b_end = node_end c
      in case IntersectionUpdateLargeAc_loop ac a_end b_end c (node_begin c) of
           Inl e \<Rightarrow> Inl e
         | Inr (ac', c') \<Rightarrow> Inr (ac', contents c'))"

text \<open>
  \<^verbatim>\<open>IntersectionUpdateLargeAc\<close> of \<^verbatim>\<open>intersection_update.cc\<close> is the same function
  statement for statement, with both containers fixed to \<^verbatim>\<open>std::set\<close>.
\<close>

definition IntersectionUpdateLargeAc_set ::
  "'a list \<Rightarrow> 'a list \<Rightarrow> error + ('a list \<times> 'a list)" where
  "IntersectionUpdateLargeAc_set ac bc =
     (let c = nodes_of bc;
          a_end = in_end ac;
          b_end = node_end c
      in case IntersectionUpdateLargeAc_loop ac a_end b_end c (node_begin c) of
           Inl e \<Rightarrow> Inl e
         | Inr (ac', c') \<Rightarrow> Inr (ac', contents c'))"

subsection \<open>\<^verbatim>\<open>intersection_update2.cc\<close>: the probe variant, vector \<^verbatim>\<open>bc\<close>\<close>

text \<open>
  The same template instantiated with \<^verbatim>\<open>Output = std::vector\<close>, as \<^verbatim>\<open>main\<close> does:
  the statements are those above, on the vector's operations.
\<close>

definition IntersectionUpdateLargeAc_vector_body ::
  "'a list \<Rightarrow> nat \<Rightarrow> 'a list \<Rightarrow> nat \<Rightarrow> error + ('a list \<times> nat)" where
  "IntersectionUpdateLargeAc_vector_body ac a_end c b =
     (case vec_deref c b of Inl e \<Rightarrow> Inl e | Inr vb \<Rightarrow>
        if in_find ac vb = a_end then
          (let b_old = b; b' = Suc b in
           (case vec_erase c b_old of Inl e \<Rightarrow> Inl e | Inr c' \<Rightarrow> Inr (c', b')))
        else Inr (c, Suc b))"

lemma IntersectionUpdateLargeAc_vector_body_decreases:
  assumes "IntersectionUpdateLargeAc_vector_body ac a_end c b = Inr (c', b')"
  shows "length c' - b' < length c - b"
  using assms
  by (auto simp: IntersectionUpdateLargeAc_vector_body_def vec_deref_def vec_erase_def Let_def
      split: sum.splits if_splits)

function IntersectionUpdateLargeAc_vector_loop ::
  "'a list \<Rightarrow> nat \<Rightarrow> nat \<Rightarrow> 'a list \<Rightarrow> nat \<Rightarrow> error + ('a list \<times> 'a list)" where
  "IntersectionUpdateLargeAc_vector_loop ac a_end b_end c b =
     (if b \<noteq> b_end then
        (case IntersectionUpdateLargeAc_vector_body ac a_end c b of
           Inl e \<Rightarrow> Inl e
         | Inr (c', b') \<Rightarrow> IntersectionUpdateLargeAc_vector_loop ac a_end b_end c' b')
      else Inr (ac, c))"
  by pat_completeness auto
termination
  by (relation "measure (\<lambda>(ac, a_end, b_end, c, b). length c - b)")
    (auto dest: IntersectionUpdateLargeAc_vector_body_decreases)

declare IntersectionUpdateLargeAc_vector_loop.simps [simp del]

definition IntersectionUpdateLargeAc_vector ::
  "'a list \<Rightarrow> 'a list \<Rightarrow> error + ('a list \<times> 'a list)" where
  "IntersectionUpdateLargeAc_vector ac bc =
     (let a_end = in_end ac;
          b_end = vec_end bc
      in IntersectionUpdateLargeAc_vector_loop ac a_end b_end bc (vec_begin bc))"

subsection \<open>\<^verbatim>\<open>intersection_update2.cc\<close>: the merge variant, node-based \<^verbatim>\<open>bc\<close>\<close>

text \<open>In the equal case only \<^verbatim>\<open>b\<close> advances.\<close>

definition IntersectionUpdate_body ::
  "('a::linorder) list \<Rightarrow> 'a nodes \<Rightarrow> nat \<Rightarrow> nat \<Rightarrow> error + ('a nodes \<times> nat \<times> nat)" where
  "IntersectionUpdate_body ac c a b =
     (case in_deref ac a of Inl e \<Rightarrow> Inl e | Inr va \<Rightarrow>
     (case node_deref c b of Inl e \<Rightarrow> Inl e | Inr vb \<Rightarrow>
        if va < vb then Inr (c, Suc a, b)
        else if va > vb then
          (let b_old = b; b' = node_next c b in
           (case node_erase c b_old of Inl e \<Rightarrow> Inl e | Inr c' \<Rightarrow> Inr (c', a, b')))
        else Inr (c, a, node_next c b)))"

lemma IntersectionUpdate_body_decreases:
  assumes "IntersectionUpdate_body ac c a b = Inr (c', a', b')"
  shows "(length ac - a') + (length c' - b') < (length ac - a) + (length c - b)"
proof -
  from assms obtain va vb where va: "in_deref ac a = Inr va" and vb: "node_deref c b = Inr vb"
    by (auto simp: IntersectionUpdate_body_def split: sum.splits)
  have la: "a < length ac" using va by (rule in_deref_Inr_less)
  have lb: "b < length c" using vb by (rule node_deref_Inr_less)
  have nb: "b < node_next c b" by (rule node_next_gt)
  from assms va vb la lb nb show ?thesis
    by (auto simp: IntersectionUpdate_body_def Let_def
        split: sum.splits if_splits dest!: node_erase_length)
qed

function IntersectionUpdate_loop ::
  "('a::linorder) list \<Rightarrow> nat \<Rightarrow> nat \<Rightarrow> nat \<Rightarrow> 'a nodes \<Rightarrow> nat \<Rightarrow> error + ('a list \<times> 'a nodes \<times> nat)"
  where
  "IntersectionUpdate_loop ac a_end b_end a c b =
     (if a \<noteq> a_end \<and> b \<noteq> b_end then
        (case IntersectionUpdate_body ac c a b of
           Inl e \<Rightarrow> Inl e
         | Inr (c', a', b') \<Rightarrow> IntersectionUpdate_loop ac a_end b_end a' c' b')
      else Inr (ac, c, b))"
  by pat_completeness auto
termination
  by (relation "measure (\<lambda>(ac, a_end, b_end, a, c, b). (length ac - a) + (length c - b))")
    (auto dest: IntersectionUpdate_body_decreases)

declare IntersectionUpdate_loop.simps [simp del]

definition IntersectionUpdate ::
  "('a::linorder) list \<Rightarrow> 'a list \<Rightarrow> error + ('a list \<times> 'a list)" where
  "IntersectionUpdate ac bc =
     (let c = nodes_of bc;
          a = in_begin ac;
          a_end = in_end ac;
          b = node_begin c;
          b_end = node_end c
      in case IntersectionUpdate_loop ac a_end b_end a c b of
           Inl e \<Rightarrow> Inl e
         | Inr (ac', c', b') \<Rightarrow>
             (case node_erase_range c' b' b_end of
                Inl e \<Rightarrow> Inl e
              | Inr c'' \<Rightarrow> Inr (ac', contents c'')))"

subsection \<open>\<^verbatim>\<open>intersection_update2.cc\<close>: the merge variant specialised for a vector\<close>

text \<open>
  A disqualified element is swapped with the last element of the live region
  \<open>[b, b_high)\<close>, which shrinks by one; in the equal case both cursors advance.
  Everything from \<^verbatim>\<open>b\<close> to the end of the vector is erased after the loop.
\<close>

definition IntersectionUpdate_vector_body ::
  "('a::linorder) list \<Rightarrow> 'a list \<Rightarrow> nat \<Rightarrow> nat \<Rightarrow> nat \<Rightarrow> error + ('a list \<times> nat \<times> nat \<times> nat)"
  where
  "IntersectionUpdate_vector_body ac c a b b_high =
     (case in_deref ac a of Inl e \<Rightarrow> Inl e | Inr va \<Rightarrow>
     (case vec_deref c b of Inl e \<Rightarrow> Inl e | Inr vb \<Rightarrow>
        if va < vb then Inr (c, Suc a, b, b_high)
        else if va > vb then
          (case vec_prev b_high of Inl e \<Rightarrow> Inl e | Inr b_high' \<Rightarrow>
          (case vec_iter_swap c b b_high' of Inl e \<Rightarrow> Inl e | Inr c' \<Rightarrow>
             Inr (c', a, b, b_high')))
        else Inr (c, Suc a, Suc b, b_high)))"

lemma IntersectionUpdate_vector_body_decreases:
  assumes "IntersectionUpdate_vector_body ac c a b b_high = Inr (c', a', b', b_high')"
  shows "(length ac - a') + b_high' < (length ac - a) + b_high"
  using assms
  by (auto simp: IntersectionUpdate_vector_body_def in_deref_def vec_prev_def
      split: sum.splits if_splits)

function IntersectionUpdate_vector_loop ::
  "('a::linorder) list \<Rightarrow> nat \<Rightarrow> nat \<Rightarrow> 'a list \<Rightarrow> nat \<Rightarrow> nat \<Rightarrow> error + ('a list \<times> 'a list \<times> nat)"
  where
  "IntersectionUpdate_vector_loop ac a_end a c b b_high =
     (if a \<noteq> a_end \<and> b \<noteq> b_high then
        (case IntersectionUpdate_vector_body ac c a b b_high of
           Inl e \<Rightarrow> Inl e
         | Inr (c', a', b', b_high') \<Rightarrow> IntersectionUpdate_vector_loop ac a_end a' c' b' b_high')
      else Inr (ac, c, b))"
  by pat_completeness auto
termination
  by (relation "measure (\<lambda>(ac, a_end, a, c, b, b_high). (length ac - a) + b_high)")
    (auto dest: IntersectionUpdate_vector_body_decreases)

declare IntersectionUpdate_vector_loop.simps [simp del]

definition IntersectionUpdate_vector ::
  "('a::linorder) list \<Rightarrow> 'a list \<Rightarrow> error + ('a list \<times> 'a list)" where
  "IntersectionUpdate_vector ac bc =
     (let a = in_begin ac;
          a_end = in_end ac;
          b = vec_begin bc;
          b_high = vec_end bc
      in case IntersectionUpdate_vector_loop ac a_end a bc b b_high of
           Inl e \<Rightarrow> Inl e
         | Inr (ac', c', b') \<Rightarrow>
             (case vec_erase_range c' b' (vec_end c') of
                Inl e \<Rightarrow> Inl e
              | Inr c'' \<Rightarrow> Inr (ac', c'')))"

section \<open>Properties\<close>

subsection \<open>Facts about the node-based container\<close>

lemma skip_erased_live: "\<not> (i < length c \<and> c ! i = None) \<Longrightarrow> skip_erased c i = i"
  by (subst skip_erased.simps) auto

lemma node_begin_map_Some: "node_begin (map Some bc) = 0"
  unfolding node_begin_def
  by (rule skip_erased_live) (cases bc; simp)

lemma contents_append: "contents (c @ d) = contents c @ contents d"
  by (simp add: contents_def)

lemma contents_replicate_None: "contents (replicate n None) = []"
  by (induction n) (simp_all add: contents_def)

lemma contents_map_Some: "contents (map Some xs) = xs"
  by (induction xs) (simp_all add: contents_def)

lemma node_deref_at: "node_deref (pre @ Some y # rest) (length pre) = Inr y"
  by (simp add: node_deref_def)

lemma node_erase_at: "node_erase (pre @ Some y # rest) (length pre) = Inr (pre @ None # rest)"
  by (simp add: node_erase_def)

lemma node_next_at: "node_next (pre @ n # map Some ys) (length pre) = Suc (length pre)"
  unfolding node_next_def
  by (rule skip_erased_live) (cases ys; simp add: nth_append)

lemma in_find_le: "in_find ac v \<le> length ac"
  by (induction ac) simp_all

lemma in_find_end: "in_find ac v = length ac \<longleftrightarrow> v \<notin> set ac"
proof (induction ac)
  case Nil
  then show ?case by simp
next
  case (Cons y ys)
  then show ?case by auto
qed

subsection \<open>The merge variant of \<^verbatim>\<open>intersection_update.cc\<close>\<close>

lemma IntersectionUpdate_set_loop_exit:
  "IntersectionUpdate_set_loop ac (in_begin ac) b_end (in_begin ac) c b = Inr (ac, c, b)"
  by (subst IntersectionUpdate_set_loop.simps) simp

lemma node_erase_range_all:
  "node_erase_range (map Some bc) 0 (length bc) = Inr (replicate (length bc) None)"
  by (simp add: node_erase_range_def)

lemma IntersectionUpdate_set_result: "IntersectionUpdate_set ac bc = Inr (ac, [])"
  by (simp add: IntersectionUpdate_set_def Let_def IntersectionUpdate_set_loop_exit nodes_of_def
      node_begin_map_Some node_end_def node_erase_range_all contents_replicate_None)

text \<open>
  Claim C2.  In \<^verbatim>\<open>IntersectionUpdate\<close> of \<^verbatim>\<open>intersection_update.cc\<close> the end cursor
  \<^verbatim>\<open>a_end\<close> is \<^verbatim>\<open>ac.begin()\<close>, so the loop condition fails on entry and the erasure
  after the loop removes everything from \<^verbatim>\<open>bc.begin()\<close> on: whatever the two
  containers hold, the call returns with \<^verbatim>\<open>bc\<close> empty (and \<^verbatim>\<open>ac\<close> as it was).
\<close>

theorem IntersectionUpdate_set_empties:
  "IntersectionUpdate_set ac bc = Inr (ac, [])"
proof -
  let ?c = "nodes_of bc"
  have "IntersectionUpdate_set_loop ac (in_begin ac) (node_end ?c) (in_begin ac) ?c (node_begin ?c)
      = Inr (ac, ?c, node_begin ?c)"
    by (rule IntersectionUpdate_set_loop_exit)
  moreover have "node_erase_range ?c (node_begin ?c) (node_end ?c)
      = Inr (replicate (length bc) None)"
    by (simp add: nodes_of_def node_begin_map_Some node_end_def node_erase_range_all)
  ultimately show ?thesis
    by (simp add: IntersectionUpdate_set_def Let_def contents_replicate_None)
qed

subsection \<open>The probe variant on a node-based container\<close>

lemma IntersectionUpdateLargeAc_body_at:
  "IntersectionUpdateLargeAc_body ac (length ac) (pre @ Some y # map Some ys) (length pre) =
     Inr (pre @ (if y \<in> set ac then Some y else None) # map Some ys, Suc (length pre))"
  by (simp add: IntersectionUpdateLargeAc_body_def node_deref_at node_erase_at node_next_at
      in_find_end Let_def)

lemma IntersectionUpdateLargeAc_loop_marks:
  "IntersectionUpdateLargeAc_loop ac (length ac) (length pre + length ys)
       (pre @ map Some ys) (length pre) =
     Inr (ac, pre @ map (\<lambda>y. if y \<in> set ac then Some y else None) ys)"
proof (induction ys arbitrary: pre)
  case Nil
  show ?case by (subst IntersectionUpdateLargeAc_loop.simps) simp
next
  case (Cons y ys)
  let ?n = "if y \<in> set ac then Some y else None"
  have "IntersectionUpdateLargeAc_loop ac (length ac) (length pre + length (y # ys))
          (pre @ map Some (y # ys)) (length pre) =
        IntersectionUpdateLargeAc_loop ac (length ac) (length (pre @ [?n]) + length ys)
          ((pre @ [?n]) @ map Some ys) (length (pre @ [?n]))"
    by (subst IntersectionUpdateLargeAc_loop.simps)
      (simp add: IntersectionUpdateLargeAc_body_at)
  also have "\<dots> = Inr (ac, (pre @ [?n]) @ map (\<lambda>y. if y \<in> set ac then Some y else None) ys)"
    by (rule Cons.IH)
  finally show ?case by simp
qed

lemma contents_marks:
  "contents (map (\<lambda>y. if P y then Some y else None) ys) = filter P ys"
  by (induction ys) (simp_all add: contents_def)

lemma IntersectionUpdateLargeAc_filter:
  "IntersectionUpdateLargeAc ac bc = Inr (ac, filter (\<lambda>x. x \<in> set ac) bc)"
  using IntersectionUpdateLargeAc_loop_marks [of ac "[]" bc]
  by (simp add: IntersectionUpdateLargeAc_def Let_def nodes_of_def node_begin_map_Some
      node_end_def in_end_def contents_marks)

subsection \<open>The merge variant on a node-based container\<close>

lemma in_deref_at: "in_deref (pa @ x # xs) (length pa) = Inr x"
  by (simp add: in_deref_def)

lemma IntersectionUpdate_body_at:
  "IntersectionUpdate_body (pa @ x # xs) (pre @ Some y # map Some ys) (length pa) (length pre) =
     (if x < y then Inr (pre @ Some y # map Some ys, Suc (length pa), length pre)
      else if y < x then Inr (pre @ None # map Some ys, length pa, Suc (length pre))
      else Inr (pre @ Some y # map Some ys, length pa, Suc (length pre)))"
  by (simp add: IntersectionUpdate_body_def in_deref_at node_deref_at node_erase_at node_next_at
      Let_def)

lemma IntersectionUpdate_loop_erase:
  "\<exists>c' b' m. IntersectionUpdate_loop (pa @ xs) (length pa + length xs) (length pre + length ys)
        (length pa) (pre @ map Some ys) (length pre) = Inr (pa @ xs, c', b')
     \<and> node_erase_range c' b' (length pre + length ys) = Inr (pre @ m)
     \<and> (sorted xs \<and> sorted ys \<longrightarrow> m = map (\<lambda>y. if y \<in> set xs then Some y else None) ys)"
proof (induction "length xs + length ys" arbitrary: pa xs pre ys rule: less_induct)
  case less
  show ?case
  proof (cases xs)
    case Nil
    have "IntersectionUpdate_loop (pa @ xs) (length pa + length xs) (length pre + length ys)
        (length pa) (pre @ map Some ys) (length pre) = Inr (pa @ xs, pre @ map Some ys, length pre)"
      using Nil by (subst IntersectionUpdate_loop.simps) simp
    moreover have "node_erase_range (pre @ map Some ys) (length pre) (length pre + length ys)
        = Inr (pre @ replicate (length ys) None)"
      by (simp add: node_erase_range_def)
    moreover have "replicate (length ys) None = map (\<lambda>y. if y \<in> set xs then Some y else None) ys"
      using Nil by (simp add: map_replicate_const)
    ultimately show ?thesis by blast
  next
    case xs: (Cons x xs')
    show ?thesis
    proof (cases ys)
      case Nil
      have "IntersectionUpdate_loop (pa @ xs) (length pa + length xs) (length pre + length ys)
          (length pa) (pre @ map Some ys) (length pre) = Inr (pa @ xs, pre, length pre)"
        using Nil by (subst IntersectionUpdate_loop.simps) simp
      moreover have "node_erase_range pre (length pre) (length pre + length ys) = Inr (pre @ [])"
        using Nil by (simp add: node_erase_range_def)
      moreover have "[] = map (\<lambda>y. if y \<in> set xs then Some y else None) ys"
        using Nil by simp
      ultimately show ?thesis by blast
    next
      case ys: (Cons y ys')
      consider (lt) "x < y" | (gt) "y < x" | (eq) "x = y"
        by (rule linorder_cases)
      then show ?thesis
      proof cases
        case lt
        have step: "IntersectionUpdate_loop (pa @ xs) (length pa + length xs) (length pre + length ys)
            (length pa) (pre @ map Some ys) (length pre) =
          IntersectionUpdate_loop ((pa @ [x]) @ xs') (length (pa @ [x]) + length xs')
            (length pre + length ys) (length (pa @ [x])) (pre @ map Some ys) (length pre)"
          using lt xs ys
          by (subst IntersectionUpdate_loop.simps) (simp add: IntersectionUpdate_body_at)
        have "length xs' + length ys < length xs + length ys" using xs by simp
        from less [OF this, of "pa @ [x]" pre]
        obtain c' b' m where
          l: "IntersectionUpdate_loop ((pa @ [x]) @ xs') (length (pa @ [x]) + length xs')
            (length pre + length ys) (length (pa @ [x])) (pre @ map Some ys) (length pre)
            = Inr ((pa @ [x]) @ xs', c', b')"
          and e: "node_erase_range c' b' (length pre + length ys) = Inr (pre @ m)"
          and m: "sorted xs' \<and> sorted ys \<longrightarrow> m = map (\<lambda>y. if y \<in> set xs' then Some y else None) ys"
          by blast
        have "m = map (\<lambda>y. if y \<in> set xs then Some y else None) ys" if "sorted xs" "sorted ys"
        proof -
          have "\<forall>z \<in> set ys. z \<noteq> x" using that lt ys by auto
          then have "map (\<lambda>y. if y \<in> set xs then Some y else None) ys
              = map (\<lambda>y. if y \<in> set xs' then Some y else None) ys"
            using xs by auto
          with m that xs show ?thesis by simp
        qed
        with step l e show ?thesis using xs by auto
      next
        case gt
        then have nlt: "\<not> x < y" by simp
        have step: "IntersectionUpdate_loop (pa @ xs) (length pa + length xs) (length pre + length ys)
            (length pa) (pre @ map Some ys) (length pre) =
          IntersectionUpdate_loop (pa @ xs) (length pa + length xs)
            (length (pre @ [None]) + length ys') (length pa) ((pre @ [None]) @ map Some ys')
            (length (pre @ [None]))"
          using gt nlt xs ys
          by (subst IntersectionUpdate_loop.simps) (simp add: IntersectionUpdate_body_at)
        have "length xs + length ys' < length xs + length ys" using ys by simp
        from less [OF this, of pa "pre @ [None]"]
        obtain c' b' m where
          l: "IntersectionUpdate_loop (pa @ xs) (length pa + length xs)
            (length (pre @ [None]) + length ys') (length pa) ((pre @ [None]) @ map Some ys')
            (length (pre @ [None])) = Inr (pa @ xs, c', b')"
          and e: "node_erase_range c' b' (length (pre @ [None]) + length ys') = Inr ((pre @ [None]) @ m)"
          and m: "sorted xs \<and> sorted ys' \<longrightarrow> m = map (\<lambda>y. if y \<in> set xs then Some y else None) ys'"
          by blast
        have "None # m = map (\<lambda>y. if y \<in> set xs then Some y else None) ys" if "sorted xs" "sorted ys"
        proof -
          have "y \<notin> set xs" using that gt xs by auto
          with m that ys show ?thesis by simp
        qed
        moreover have "node_erase_range c' b' (length pre + length ys) = Inr (pre @ None # m)"
          using e ys by simp
        ultimately show ?thesis using step l by auto
      next
        case eq
        have step: "IntersectionUpdate_loop (pa @ xs) (length pa + length xs) (length pre + length ys)
            (length pa) (pre @ map Some ys) (length pre) =
          IntersectionUpdate_loop (pa @ xs) (length pa + length xs)
            (length (pre @ [Some y]) + length ys') (length pa) ((pre @ [Some y]) @ map Some ys')
            (length (pre @ [Some y]))"
          using eq xs ys
          by (subst IntersectionUpdate_loop.simps) (simp add: IntersectionUpdate_body_at)
        have "length xs + length ys' < length xs + length ys" using ys by simp
        from less [OF this, of pa "pre @ [Some y]"]
        obtain c' b' m where
          l: "IntersectionUpdate_loop (pa @ xs) (length pa + length xs)
            (length (pre @ [Some y]) + length ys') (length pa) ((pre @ [Some y]) @ map Some ys')
            (length (pre @ [Some y])) = Inr (pa @ xs, c', b')"
          and e: "node_erase_range c' b' (length (pre @ [Some y]) + length ys') = Inr ((pre @ [Some y]) @ m)"
          and m: "sorted xs \<and> sorted ys' \<longrightarrow> m = map (\<lambda>y. if y \<in> set xs then Some y else None) ys'"
          by blast
        have "Some y # m = map (\<lambda>y. if y \<in> set xs then Some y else None) ys" if "sorted xs" "sorted ys"
        proof -
          have "y \<in> set xs" using eq xs by simp
          with m that ys show ?thesis by simp
        qed
        moreover have "node_erase_range c' b' (length pre + length ys) = Inr (pre @ Some y # m)"
          using e ys by simp
        ultimately show ?thesis using step l by auto
      qed
    qed
  qed
qed

lemma IntersectionUpdate_result:
  "\<exists>m. IntersectionUpdate ac bc = Inr (ac, contents m)
     \<and> (sorted ac \<and> sorted bc \<longrightarrow> m = map (\<lambda>y. if y \<in> set ac then Some y else None) bc)"
proof -
  from IntersectionUpdate_loop_erase [of "[]" ac "[]" bc]
  obtain c' b' m where
    "IntersectionUpdate_loop ac (length ac) (length bc) 0 (map Some bc) 0 = Inr (ac, c', b')"
    "node_erase_range c' b' (length bc) = Inr m"
    "sorted ac \<and> sorted bc \<longrightarrow> m = map (\<lambda>y. if y \<in> set ac then Some y else None) bc"
    by auto
  then show ?thesis
    by (auto simp: IntersectionUpdate_def Let_def nodes_of_def node_begin_map_Some node_end_def
        in_begin_def in_end_def)
qed

lemma IntersectionUpdate_filter:
  assumes "sorted ac" and "sorted bc"
  shows "IntersectionUpdate ac bc = Inr (ac, filter (\<lambda>x. x \<in> set ac) bc)"
  using IntersectionUpdate_result [of ac bc] assms by (auto simp: contents_marks)

text \<open>
  Claim C5.  For ascending \<^verbatim>\<open>ac\<close> and an ascending node-based \<^verbatim>\<open>bc\<close> (set, multiset or
  sorted list; equal neighbours allowed), the general \<^verbatim>\<open>IntersectionUpdate\<close> of
  \<^verbatim>\<open>intersection_update2.cc\<close> returns normally, leaves \<^verbatim>\<open>ac\<close> as it was, and leaves in
  \<^verbatim>\<open>bc\<close> exactly the occurrences whose value is in \<^verbatim>\<open>ac\<close>, in their original order,
  each duplicate kept or removed on its own.
\<close>

theorem IntersectionUpdate_correct:
  assumes "sorted ac" and "sorted bc"
  shows "IntersectionUpdate ac bc = Inr (ac, filter (\<lambda>x. x \<in> set ac) bc)"
proof -
  from IntersectionUpdate_result [of ac bc] assms
  have "IntersectionUpdate ac bc
      = Inr (ac, contents (map (\<lambda>y. if y \<in> set ac then Some y else None) bc))"
    by auto
  then show ?thesis by (simp add: contents_marks)
qed

theorem IntersectionUpdate_correct_witness:
  "sorted [2, 4, 6 :: int] \<and> sorted [1, 2, 3, 4, 5 :: int]
     \<and> IntersectionUpdate [2, 4, 6 :: int] [1, 2, 3, 4, 5] = Inr ([2, 4, 6], [2, 4])"
  using IntersectionUpdate_correct [of "[2, 4, 6 :: int]" "[1, 2, 3, 4, 5]"] by simp

subsection \<open>The probe variant on a vector\<close>

text \<open>
  Once an element has been erased the vector is shorter than the \<^verbatim>\<open>b_end\<close> the loop
  still compares with, so the loop cannot stop before it reads past the end.
\<close>

lemma IntersectionUpdateLargeAc_vector_loop_stale:
  "length c < e \<Longrightarrow> b < e \<Longrightarrow>
     IntersectionUpdateLargeAc_vector_loop ac a_end e c b = Inl OutOfRange"
proof (induction "e - b" arbitrary: c b rule: less_induct)
  case less
  show ?case
  proof (cases "b < length c")
    case False
    with less.prems show ?thesis
      by (subst IntersectionUpdateLargeAc_vector_loop.simps)
        (simp add: IntersectionUpdateLargeAc_vector_body_def vec_deref_def)
  next
    case True
    then have "\<exists>c'. IntersectionUpdateLargeAc_vector_body ac a_end c b = Inr (c', Suc b)
        \<and> length c' \<le> length c"
      by (simp add: IntersectionUpdateLargeAc_vector_body_def vec_deref_def vec_erase_def Let_def)
    then obtain c' where
      body: "IntersectionUpdateLargeAc_vector_body ac a_end c b = Inr (c', Suc b)"
      and len: "length c' \<le> length c"
      by blast
    have "IntersectionUpdateLargeAc_vector_loop ac a_end e c' (Suc b) = Inl OutOfRange"
      using less.prems True len by (intro less.hyps) auto
    with less.prems body show ?thesis
      by (subst IntersectionUpdateLargeAc_vector_loop.simps) simp
  qed
qed

lemma IntersectionUpdateLargeAc_vector_loop_result:
  "IntersectionUpdateLargeAc_vector_loop ac (length ac) (length pre + length ys)
       (pre @ ys) (length pre) =
     (if \<forall>x \<in> set (butlast ys). x \<in> set ac
      then Inr (ac, pre @ filter (\<lambda>x. x \<in> set ac) ys) else Inl OutOfRange)"
proof (induction ys arbitrary: pre)
  case Nil
  show ?case by (subst IntersectionUpdateLargeAc_vector_loop.simps) simp
next
  case (Cons y ys)
  show ?case
  proof (cases "y \<in> set ac")
    case True
    have "IntersectionUpdateLargeAc_vector_loop ac (length ac) (length pre + length (y # ys))
            (pre @ y # ys) (length pre) =
          IntersectionUpdateLargeAc_vector_loop ac (length ac) (length (pre @ [y]) + length ys)
            ((pre @ [y]) @ ys) (length (pre @ [y]))"
      using True
      by (subst IntersectionUpdateLargeAc_vector_loop.simps)
        (simp add: IntersectionUpdateLargeAc_vector_body_def vec_deref_def in_find_end)
    also note Cons.IH [of "pre @ [y]"]
    finally show ?thesis using True by simp
  next
    case False
    have body: "IntersectionUpdateLargeAc_vector_body ac (length ac) (pre @ y # ys) (length pre)
        = Inr (pre @ ys, Suc (length pre))"
      using False
      by (simp add: IntersectionUpdateLargeAc_vector_body_def vec_deref_def vec_erase_def
          in_find_end Let_def)
    show ?thesis
    proof (cases ys)
      case Nil
      have "IntersectionUpdateLargeAc_vector_loop ac (length ac) (Suc (length pre)) pre
          (Suc (length pre)) = Inr (ac, pre)"
        by (subst IntersectionUpdateLargeAc_vector_loop.simps) simp
      with body Nil False show ?thesis
        by (subst IntersectionUpdateLargeAc_vector_loop.simps) simp
    next
      case (Cons z zs)
      have "IntersectionUpdateLargeAc_vector_loop ac (length ac) (length pre + length (y # ys))
          (pre @ ys) (Suc (length pre)) = Inl OutOfRange"
        using Cons by (intro IntersectionUpdateLargeAc_vector_loop_stale) auto
      with body Cons False show ?thesis
        by (subst IntersectionUpdateLargeAc_vector_loop.simps) simp
    qed
  qed
qed

lemma IntersectionUpdateLargeAc_vector_result:
  "IntersectionUpdateLargeAc_vector ac bc =
     (if \<forall>x \<in> set (butlast bc). x \<in> set ac
      then Inr (ac, filter (\<lambda>x. x \<in> set ac) bc) else Inl OutOfRange)"
  using IntersectionUpdateLargeAc_vector_loop_result [of ac "[]" bc]
  by (simp add: IntersectionUpdateLargeAc_vector_def Let_def in_end_def vec_end_def vec_begin_def)

subsection \<open>The merge variant specialised for a vector\<close>

text \<open>
  The loop never leaves the vector, and what it keeps was matched against elements of
  \<^verbatim>\<open>ac\<close> at increasing positions.
\<close>

lemma IntersectionUpdate_vector_loop_subseq:
  "a \<le> length ac \<Longrightarrow> b \<le> h \<Longrightarrow> h \<le> length c \<Longrightarrow>
   \<exists>c' b' r. IntersectionUpdate_vector_loop ac (length ac) a c b h = Inr (ac, c', b')
      \<and> b' \<le> length c' \<and> take b' c' = take b c @ r \<and> subseq r (drop a ac)"
proof (induction "(length ac - a) + h" arbitrary: a c b h rule: less_induct)
  case less
  show ?case
  proof (cases "a \<noteq> length ac \<and> b \<noteq> h")
    case False
    then have "IntersectionUpdate_vector_loop ac (length ac) a c b h = Inr (ac, c, b)"
      by (subst IntersectionUpdate_vector_loop.simps) auto
    moreover have "b \<le> length c" using less.prems by simp
    ultimately show ?thesis by auto
  next
    case True
    with less.prems have la: "a < length ac" and lb: "b < h" and lc: "b < length c"
      by auto
    have da: "drop a ac = ac ! a # drop (Suc a) ac"
      using la by (simp add: Cons_nth_drop_Suc)
    consider (lt) "ac ! a < c ! b" | (gt) "c ! b < ac ! a" | (eq) "ac ! a = c ! b"
      by (rule linorder_cases)
    then show ?thesis
    proof cases
      case lt
      have step: "IntersectionUpdate_vector_loop ac (length ac) a c b h =
          IntersectionUpdate_vector_loop ac (length ac) (Suc a) c b h"
        using True la lc lt
        by (subst IntersectionUpdate_vector_loop.simps)
          (simp add: IntersectionUpdate_vector_body_def in_deref_def vec_deref_def)
      have "\<exists>c' b' r. IntersectionUpdate_vector_loop ac (length ac) (Suc a) c b h = Inr (ac, c', b')
          \<and> b' \<le> length c' \<and> take b' c' = take b c @ r \<and> subseq r (drop (Suc a) ac)"
        using la less.prems by (intro less.hyps) auto
      then obtain c' b' r where
        "IntersectionUpdate_vector_loop ac (length ac) (Suc a) c b h = Inr (ac, c', b')"
        "b' \<le> length c'" "take b' c' = take b c @ r" "subseq r (drop (Suc a) ac)"
        by blast
      moreover from this have "subseq r (drop a ac)"
        by (auto simp: da intro: list_emb.intros)
      ultimately show ?thesis using step by auto
    next
      case gt
      then have nlt: "\<not> ac ! a < c ! b" by simp
      let ?c = "c[b := c ! (h - 1), h - 1 := c ! b]"
      have hl: "h - 1 < length c" "h \<noteq> 0" using lb less.prems by auto
      have step: "IntersectionUpdate_vector_loop ac (length ac) a c b h =
          IntersectionUpdate_vector_loop ac (length ac) a ?c b (h - 1)"
        using True la lb lc gt nlt hl
        by (subst IntersectionUpdate_vector_loop.simps)
          (simp add: IntersectionUpdate_vector_body_def in_deref_def vec_deref_def vec_prev_def
            vec_iter_swap_def)
      have "\<exists>c' b' r. IntersectionUpdate_vector_loop ac (length ac) a ?c b (h - 1) = Inr (ac, c', b')
          \<and> b' \<le> length c' \<and> take b' c' = take b ?c @ r \<and> subseq r (drop a ac)"
        using lb less.prems by (intro less.hyps) auto
      then obtain c' b' r where
        "IntersectionUpdate_vector_loop ac (length ac) a ?c b (h - 1) = Inr (ac, c', b')"
        "b' \<le> length c'" "take b' c' = take b ?c @ r" "subseq r (drop a ac)"
        by blast
      moreover have "take b ?c = take b c" using lb by simp
      ultimately show ?thesis using step by auto
    next
      case eq
      have step: "IntersectionUpdate_vector_loop ac (length ac) a c b h =
          IntersectionUpdate_vector_loop ac (length ac) (Suc a) c (Suc b) h"
        using True la lc eq
        by (subst IntersectionUpdate_vector_loop.simps)
          (simp add: IntersectionUpdate_vector_body_def in_deref_def vec_deref_def)
      have "\<exists>c' b' r. IntersectionUpdate_vector_loop ac (length ac) (Suc a) c (Suc b) h = Inr (ac, c', b')
          \<and> b' \<le> length c' \<and> take b' c' = take (Suc b) c @ r \<and> subseq r (drop (Suc a) ac)"
        using la lb less.prems by (intro less.hyps) auto
      then obtain c' b' r where
        l: "IntersectionUpdate_vector_loop ac (length ac) (Suc a) c (Suc b) h = Inr (ac, c', b')"
        "b' \<le> length c'" and t: "take b' c' = take (Suc b) c @ r"
        and s: "subseq r (drop (Suc a) ac)"
        by blast
      have "take b' c' = take b c @ (c ! b # r)"
        using t lc by (simp add: take_Suc_conv_app_nth)
      moreover have "subseq (c ! b # r) (drop a ac)"
        using s eq by (simp add: da)
      ultimately show ?thesis using step l by (metis (no_types))
    qed
  qed
qed

lemma IntersectionUpdate_vector_loop_keep:
  "subseq r xs \<Longrightarrow> sorted xs \<Longrightarrow>
   IntersectionUpdate_vector_loop (pa @ xs) (length pa + length xs) (length pa) (pre @ r)
       (length pre) (length pre + length r) = Inr (pa @ xs, pre @ r, length pre + length r)"
proof (induction xs arbitrary: pa pre r)
  case Nil
  then show ?case by (subst IntersectionUpdate_vector_loop.simps) simp
next
  case (Cons x xs)
  show ?case
  proof (cases r)
    case Nil
    then show ?thesis by (subst IntersectionUpdate_vector_loop.simps) simp
  next
    case r: (Cons y r')
    show ?thesis
    proof (cases "x = y")
      case True
      with Cons.prems r have sub: "subseq r' xs" and so: "sorted xs" by auto
      have "IntersectionUpdate_vector_loop (pa @ x # xs) (length pa + length (x # xs)) (length pa)
            (pre @ r) (length pre) (length pre + length r) =
          IntersectionUpdate_vector_loop ((pa @ [x]) @ xs) (length (pa @ [x]) + length xs)
            (length (pa @ [x])) ((pre @ [y]) @ r') (length (pre @ [y]))
            (length (pre @ [y]) + length r')"
        using True r
        by (subst IntersectionUpdate_vector_loop.simps)
          (simp add: IntersectionUpdate_vector_body_def in_deref_def vec_deref_def)
      also note Cons.IH [OF sub so, of "pa @ [x]" "pre @ [y]"]
      finally show ?thesis using r by simp
    next
      case False
      with Cons.prems r have sub: "subseq r xs" and so: "sorted xs" by auto
      then have "y \<in> set xs" using r list_emb_set [of "(=)" r xs y] by auto
      with Cons.prems False have lt: "x < y" by auto
      have "IntersectionUpdate_vector_loop (pa @ x # xs) (length pa + length (x # xs)) (length pa)
            (pre @ r) (length pre) (length pre + length r) =
          IntersectionUpdate_vector_loop ((pa @ [x]) @ xs) (length (pa @ [x]) + length xs)
            (length (pa @ [x])) (pre @ r) (length pre) (length pre + length r)"
        using lt r
        by (subst IntersectionUpdate_vector_loop.simps)
          (simp add: IntersectionUpdate_vector_body_def in_deref_def vec_deref_def)
      also note Cons.IH [OF sub so, of "pa @ [x]" pre]
      finally show ?thesis by simp
    qed
  qed
qed

lemma IntersectionUpdate_vector_subseq:
  "\<exists>r. IntersectionUpdate_vector ac bc = Inr (ac, r) \<and> subseq r ac"
proof -
  from IntersectionUpdate_vector_loop_subseq [of 0 ac 0 "length bc" bc]
  obtain c' b' r where
    "IntersectionUpdate_vector_loop ac (length ac) 0 bc 0 (length bc) = Inr (ac, c', b')"
    "b' \<le> length c'" "take b' c' = r" "subseq r ac"
    by auto
  then show ?thesis
    by (auto simp: IntersectionUpdate_vector_def Let_def in_begin_def in_end_def vec_begin_def
        vec_end_def vec_erase_range_def)
qed

lemma IntersectionUpdate_vector_keep:
  assumes "subseq r ac" and "sorted ac"
  shows "IntersectionUpdate_vector ac r = Inr (ac, r)"
  using IntersectionUpdate_vector_loop_keep [OF assms, of "[]" "[]"]
  by (simp add: IntersectionUpdate_vector_def Let_def in_begin_def in_end_def vec_begin_def
      vec_end_def vec_erase_range_def)

subsection \<open>The two variants on a node-based container\<close>

lemma IntersectionUpdate_eq_LargeAc:
  assumes "sorted ac" and "sorted bc"
  shows "IntersectionUpdate ac bc = IntersectionUpdateLargeAc ac bc"
  using assms by (simp add: IntersectionUpdate_filter IntersectionUpdateLargeAc_filter)

lemma IntersectionUpdate_body_equal:
  assumes "in_deref ac a = Inr v" and "node_deref c b = Inr v"
  shows "IntersectionUpdate_body ac c a b = Inr (c, a, node_next c b)"
  using assms by (simp add: IntersectionUpdate_body_def)

subsection \<open>The merge variant of \<^verbatim>\<open>intersection_update.cc\<close> called on one set\<close>

lemma IntersectionUpdate_set_alias_result: "IntersectionUpdate_set_alias xs = Inr ([], [])"
proof -
  let ?s = "nodes_of xs"
  have "IntersectionUpdate_set_alias_loop (node_begin ?s) (node_end ?s) ?s (node_begin ?s)
      (node_begin ?s) = Inr (?s, node_begin ?s)"
    by (subst IntersectionUpdate_set_alias_loop.simps) simp
  moreover have "node_erase_range ?s (node_begin ?s) (node_end ?s)
      = Inr (replicate (length xs) None)"
    by (simp add: nodes_of_def node_begin_map_Some node_end_def node_erase_range_all)
  ultimately show ?thesis
    by (simp add: IntersectionUpdate_set_alias_def Let_def contents_replicate_None)
qed

subsection \<open>A second call\<close>

text \<open>
  For ascending \<^verbatim>\<open>ac\<close> and \<^verbatim>\<open>bc\<close>, the merge and the probe template on a node-based
  \<^verbatim>\<open>bc\<close>, the vector specialisation of the merge variant and the two functions of
  \<^verbatim>\<open>intersection_update.cc\<close> return normally, and a second call on the result returns
  that result again.
\<close>

lemma second_call_unchanged:
  assumes "sorted ac" and "sorted bc"
  shows "(\<exists>r. IntersectionUpdate ac bc = Inr (ac, r) \<and> IntersectionUpdate ac r = Inr (ac, r))
   \<and> (\<exists>r. IntersectionUpdateLargeAc ac bc = Inr (ac, r)
          \<and> IntersectionUpdateLargeAc ac r = Inr (ac, r))
   \<and> (\<exists>r. IntersectionUpdate_vector ac bc = Inr (ac, r)
          \<and> IntersectionUpdate_vector ac r = Inr (ac, r))
   \<and> (\<exists>r. IntersectionUpdate_set ac bc = Inr (ac, r) \<and> IntersectionUpdate_set ac r = Inr (ac, r))
   \<and> (\<exists>r. IntersectionUpdateLargeAc_set ac bc = Inr (ac, r)
          \<and> IntersectionUpdateLargeAc_set ac r = Inr (ac, r))"
proof -
  let ?P = "\<lambda>x. x \<in> set ac"
  let ?r = "filter ?P bc"
  have sf: "sorted ?r" using assms(2) by (rule sorted_wrt_filter)
  have ff: "filter ?P ?r = ?r" by simp
  have "IntersectionUpdate ac bc = Inr (ac, ?r)"
    using assms by (rule IntersectionUpdate_filter)
  moreover have "IntersectionUpdate ac ?r = Inr (ac, ?r)"
    using IntersectionUpdate_filter [OF assms(1) sf] by (simp only: ff)
  ultimately have 1:
    "\<exists>r. IntersectionUpdate ac bc = Inr (ac, r) \<and> IntersectionUpdate ac r = Inr (ac, r)"
    by blast
  have "IntersectionUpdateLargeAc ac bc = Inr (ac, ?r)"
    by (rule IntersectionUpdateLargeAc_filter)
  moreover have "IntersectionUpdateLargeAc ac ?r = Inr (ac, ?r)"
    using IntersectionUpdateLargeAc_filter [of ac ?r] by (simp only: ff)
  ultimately have 2: "\<exists>r. IntersectionUpdateLargeAc ac bc = Inr (ac, r)
      \<and> IntersectionUpdateLargeAc ac r = Inr (ac, r)"
    by blast
  from IntersectionUpdate_vector_subseq [of ac bc] obtain v where
    v: "IntersectionUpdate_vector ac bc = Inr (ac, v)" and sv: "subseq v ac"
    by blast
  have "IntersectionUpdate_vector ac v = Inr (ac, v)"
    using sv assms(1) by (rule IntersectionUpdate_vector_keep)
  with v have 3: "\<exists>r. IntersectionUpdate_vector ac bc = Inr (ac, r)
      \<and> IntersectionUpdate_vector ac r = Inr (ac, r)"
    by blast
  have "IntersectionUpdate_set ac bc = Inr (ac, [])" "IntersectionUpdate_set ac [] = Inr (ac, [])"
    by (rule IntersectionUpdate_set_result)+
  then have 4:
    "\<exists>r. IntersectionUpdate_set ac bc = Inr (ac, r) \<and> IntersectionUpdate_set ac r = Inr (ac, r)"
    by blast
  have s: "IntersectionUpdateLargeAc_set ac xs = IntersectionUpdateLargeAc ac xs" for xs
    by (simp add: IntersectionUpdateLargeAc_set_def IntersectionUpdateLargeAc_def)
  from 2 have 5: "\<exists>r. IntersectionUpdateLargeAc_set ac bc = Inr (ac, r)
      \<and> IntersectionUpdateLargeAc_set ac r = Inr (ac, r)"
    by (simp only: s)
  from 1 2 3 4 5 show ?thesis by (intro conjI)
qed

section \<open>The claims\<close>

text \<open>
  Claim C1 says that the merge variant and the probe variant leave the same \<^verbatim>\<open>bc\<close> for
  every ascending pair, the vector specialisation of the merge variant included.  On
  node-based containers they do (\<open>IntersectionUpdate_eq_LargeAc\<close>).  The vector
  specialisation does not: for \<^verbatim>\<open>ac = {2, 3}\<close> and the vector \<^verbatim>\<open>bc = [1, 2, 3]\<close> it
  leaves \<^verbatim>\<open>[3]\<close>, where the probe variant leaves \<^verbatim>\<open>[2, 3]\<close> in a node-based \<^verbatim>\<open>bc\<close>
  and reads past the end of a vector \<^verbatim>\<open>bc\<close>; for \<^verbatim>\<open>ac = {5}\<close> and the vector
  \<^verbatim>\<open>bc = [5, 5]\<close> the specialisation leaves \<^verbatim>\<open>[5]\<close> and the probe variant, on the same
  vector, \<^verbatim>\<open>[5, 5]\<close>.
\<close>

theorem IntersectionUpdate_vector_differs_from_probe:
  "IntersectionUpdate_vector [2, 3 :: int] [1, 2, 3] = Inr ([2, 3], [3])
   \<and> IntersectionUpdateLargeAc [2, 3 :: int] [1, 2, 3] = Inr ([2, 3], [2, 3])
   \<and> IntersectionUpdateLargeAc_vector [2, 3 :: int] [1, 2, 3] = Inl OutOfRange
   \<and> IntersectionUpdate_vector [5 :: int] [5, 5] = Inr ([5], [5])
   \<and> IntersectionUpdateLargeAc_vector [5 :: int] [5, 5] = Inr ([5], [5, 5])"
  by code_simp

text \<open>
  Claim C3 says that the vector specialisation of the merge variant leaves exactly the
  occurrences of \<^verbatim>\<open>bc\<close> whose value is in \<^verbatim>\<open>ac\<close>, in ascending order.  The swap brings
  the largest remaining element to the cursor, after which \<^verbatim>\<open>a\<close> runs past elements
  that are still to come in \<^verbatim>\<open>bc\<close>: for \<^verbatim>\<open>ac = {2, 4, 6}\<close> and \<^verbatim>\<open>bc = [1, 2, 3, 4, 5]\<close>
  the call leaves \<^verbatim>\<open>bc\<close> empty, although \<^verbatim>\<open>2\<close> and \<^verbatim>\<open>4\<close> are in both.
\<close>

theorem IntersectionUpdate_vector_loses_elements:
  "IntersectionUpdate_vector [2, 4, 6 :: int] [1, 2, 3, 4, 5] = Inr ([2, 4, 6], [])
   \<and> filter (\<lambda>x. x \<in> set [2, 4, 6 :: int]) [1, 2, 3, 4, 5] = [2, 4]"
  by code_simp

text \<open>
  Claim C4 says that \<^verbatim>\<open>IntersectionUpdateLargeAc\<close> leaves in \<^verbatim>\<open>bc\<close> exactly the
  occurrences whose value is in \<^verbatim>\<open>ac\<close>, for a set, multiset, sorted list or sorted
  vector \<^verbatim>\<open>bc\<close>.  For the node-based containers it does
  (\<open>IntersectionUpdateLargeAc_filter\<close>).  For the vector \<^verbatim>\<open>bc = [1, 2, 3, 4, 5]\<close> and
  \<^verbatim>\<open>ac = {2, 4, 6}\<close> the call reads past the end of the vector instead of leaving
  \<^verbatim>\<open>[2, 4]\<close>, as it does in a node-based \<^verbatim>\<open>bc\<close>.
\<close>

theorem IntersectionUpdateLargeAc_vector_fails:
  "IntersectionUpdateLargeAc_vector [2, 4, 6 :: int] [1, 2, 3, 4, 5] = Inl OutOfRange
   \<and> IntersectionUpdateLargeAc [2, 4, 6 :: int] [1, 2, 3, 4, 5] = Inr ([2, 4, 6], [2, 4])"
  by code_simp

text \<open>
  Claim C6 says that every merge-variant implementation, when the elements under the
  two cursors are equal, keeps the element of \<^verbatim>\<open>bc\<close> and advances \<^verbatim>\<open>b\<close> only, so that
  \<^verbatim>\<open>ac = {5, 10}\<close>, \<^verbatim>\<open>bc = [5, 5, 7, 10]\<close> yields \<^verbatim>\<open>[5, 5, 10]\<close>.  The general template
  does (\<open>IntersectionUpdate_body_equal\<close>).  The vector specialisation advances both
  cursors: on the vector \<^verbatim>\<open>[5, 5, 7, 10]\<close> its first step moves \<^verbatim>\<open>a\<close> from the \<^verbatim>\<open>5\<close> to the
  \<^verbatim>\<open>10\<close>, the second \<^verbatim>\<open>5\<close> is then smaller than the element under \<^verbatim>\<open>a\<close> and is swapped
  out, and the call leaves \<^verbatim>\<open>[5, 10]\<close>.
\<close>

theorem IntersectionUpdate_vector_drops_duplicate:
  "IntersectionUpdate_vector_body [5, 10 :: int] [5, 5, 7, 10] (in_begin [5, 10 :: int])
       (vec_begin [5, 5, 7, 10 :: int]) (vec_end [5, 5, 7, 10 :: int])
     = Inr ([5, 5, 7, 10], 1, 1, 4)
   \<and> IntersectionUpdate_vector [5, 10 :: int] [5, 5, 7, 10] = Inr ([5, 10], [5, 10])
   \<and> IntersectionUpdate [5, 10 :: int] [5, 5, 7, 10] = Inr ([5, 10], [5, 5, 10])"
  by code_simp

text \<open>
  Claim C7 says that in the probe variant every removal continues at the next surviving
  element, for a sorted vector too.  On the vector \<^verbatim>\<open>bc = [1, 2, 3]\<close> with
  \<^verbatim>\<open>ac = {2}\<close>, removing \<^verbatim>\<open>1\<close> leaves the cursor on index 1 of \<^verbatim>\<open>[2, 3]\<close>, which holds
  \<^verbatim>\<open>3\<close>: the element \<^verbatim>\<open>2\<close> is never looked up, and the traversal ends by
  reading past the end of the vector.
\<close>

theorem IntersectionUpdateLargeAc_vector_skips:
  "IntersectionUpdateLargeAc_vector_body [2 :: int] (in_end [2 :: int]) [1, 2, 3] (vec_begin [1, 2, 3 :: int])
       = Inr ([2, 3], 1)
   \<and> vec_deref [2, 3 :: int] 1 = Inr 3
   \<and> IntersectionUpdateLargeAc_vector [2 :: int] [1, 2, 3] = Inl OutOfRange"
  by code_simp

text \<open>
  Claim C8 says that for every input pair and every entry point \<^verbatim>\<open>ac\<close> is the same
  before and after the call.  \<^verbatim>\<open>IntersectionUpdate\<close> of \<^verbatim>\<open>intersection_update.cc\<close>
  called as \<^verbatim>\<open>IntersectionUpdate(s, &s)\<close> with \<^verbatim>\<open>s = {1, 2, 3}\<close> does not enter its loop,
  because \<^verbatim>\<open>a_end\<close> is \<^verbatim>\<open>ac.begin()\<close>, and then erases the whole of \<^verbatim>\<open>*bc\<close>, which is
  \<^verbatim>\<open>ac\<close>: after the call \<^verbatim>\<open>ac\<close> is empty.
\<close>

theorem IntersectionUpdate_set_alias_empties_ac:
  "IntersectionUpdate_set_alias [1, 2, 3 :: int] = Inr ([], [])"
  by code_simp

text \<open>
  Claim C9 says that a second call of the same operation on the reduced \<^verbatim>\<open>bc\<close> leaves it
  unchanged, for every ascending pair.  On the vector \<^verbatim>\<open>bc = [1, 2, 3]\<close> with
  \<^verbatim>\<open>ac = {3}\<close> the probe variant erases \<^verbatim>\<open>1\<close>, goes on at index 1 of \<^verbatim>\<open>[2, 3]\<close>, finds
  the \<^verbatim>\<open>3\<close> there, and then reads index 2 of the two-element vector: the first call
  produces no reduced \<^verbatim>\<open>bc\<close> to call it on again, and the \<^verbatim>\<open>[2, 3]\<close> it holds at that
  point still contains \<^verbatim>\<open>2\<close>, which a call on \<^verbatim>\<open>[2, 3]\<close> erases before it, too, reads
  out of range.  On a node-based \<^verbatim>\<open>bc\<close> the call leaves \<^verbatim>\<open>[3]\<close>
  (and \<open>second_call_unchanged\<close> holds).
\<close>

theorem IntersectionUpdateLargeAc_vector_no_reduced_bc:
  "IntersectionUpdateLargeAc_vector_body [3 :: int] (in_end [3 :: int]) [1, 2, 3]
       (vec_begin [1, 2, 3 :: int]) = Inr ([2, 3], 1)
   \<and> IntersectionUpdateLargeAc_vector_body [3 :: int] (in_end [3 :: int]) [2, 3] 1
       = Inr ([2, 3], 2)
   \<and> vec_deref [2, 3 :: int] 2 = Inl OutOfRange
   \<and> IntersectionUpdateLargeAc_vector [3 :: int] [1, 2, 3] = Inl OutOfRange
   \<and> IntersectionUpdateLargeAc_vector_body [3 :: int] (in_end [3 :: int]) [2, 3]
       (vec_begin [2, 3 :: int]) = Inr ([3], 1)
   \<and> IntersectionUpdateLargeAc_vector [3 :: int] [2, 3] = Inl OutOfRange
   \<and> IntersectionUpdateLargeAc [3 :: int] [1, 2, 3] = Inr ([3], [3])"
  by code_simp

text \<open>
  Claim C10, as amended.  In \<^verbatim>\<open>IntersectionUpdateLargeAc\<close> of \<^verbatim>\<open>intersection_update2.cc\<close>
  \<^verbatim>\<open>b_end\<close> is read once before the loop.  On a vector \<^verbatim>\<open>bc\<close> the call reads or erases
  out of range exactly when some element other than the last is missing from \<^verbatim>\<open>ac\<close>
  (so for \<^verbatim>\<open>ac\<close> empty and \<^verbatim>\<open>bc = [1, 2]\<close>); when only the last element is removed the
  cursor equals the stale \<^verbatim>\<open>b_end\<close> and the loop stops.  On a node-based \<^verbatim>\<open>bc\<close> every
  call returns normally.
\<close>

theorem stale_b_end:
  "(IntersectionUpdateLargeAc_vector ac bc = Inl OutOfRange
      \<longleftrightarrow> (\<exists>x \<in> set (butlast bc). x \<notin> set ac))
   \<and> (\<exists>r. IntersectionUpdateLargeAc ac bc = Inr (ac, r))"
  by (simp add: IntersectionUpdateLargeAc_vector_result IntersectionUpdateLargeAc_filter)

theorem stale_b_end_witness:
  "IntersectionUpdateLargeAc_vector [] [1, 2 :: int] = Inl OutOfRange
   \<and> (\<exists>r. IntersectionUpdateLargeAc [] [1, 2 :: int] = Inr ([], r))"
  using stale_b_end [of "[]" "[1, 2 :: int]"] by simp

text \<open>
  Claim C10 as it is written gives \<^verbatim>\<open>ac\<close> empty, \<^verbatim>\<open>bc = [1]\<close> as an input that reaches
  the out-of-range access.  There the one removal is at the last position: the cursor
  is past the end of the emptied vector, but it equals \<^verbatim>\<open>b_end\<close>, and the call returns
  with \<^verbatim>\<open>bc\<close> empty.
\<close>

theorem stale_b_end_counterexample:
  "IntersectionUpdateLargeAc_vector [] [1 :: int] = Inr ([], [])
   \<and> IntersectionUpdateLargeAc_vector_body [] (in_end []) [1 :: int] (vec_begin [1 :: int])
       = Inr ([], 1)
   \<and> vec_end ([] :: int list) < 1"
  by code_simp

end
